theory Spec2Isabelle
  imports Main "HOL-Library.Sublist" "HOL-Library.AList"
begin

section \<open>Personal expense tracker: data model\<close>

text \<open>
  The program keeps its expenses as a Python list of dictionaries. A dictionary built by
  \<^verbatim>\<open>add_expense\<close> has the four string keys \<^verbatim>\<open>date\<close>, \<^verbatim>\<open>category\<close>, \<^verbatim>\<open>description\<close>, \<^verbatim>\<open>amount\<close>
  with string values. A dictionary built by \<^verbatim>\<open>csv.DictReader\<close> has the column names of the
  file as keys, bound to strings or, in a short row, to \<^verbatim>\<open>None\<close> (the rest value); for a long
  row it also has the key \<^verbatim>\<open>None\<close> (the rest key) bound to the list of the extra fields.
  The string keys are an association list in insertion order, a value of \<open>None\<close> being
  Python's \<^verbatim>\<open>None\<close>; the binding of the key \<^verbatim>\<open>None\<close> is a field of its own. Characters are
  8-bit: a Python string is modelled by its UTF-8 text.
\<close>

record expense =
  items :: "(string \<times> string option) list"
  rest_fields :: "string list option"

datatype py_error = EOFError | KeyError | ValueError | TypeError | ZeroDivisionError
  | CsvFieldLimit | CsvNewLine | OSError

definition CATEGORIES :: "string list" where
  "CATEGORIES = [''Food'', ''Transport'', ''Entertainment'', ''Bills'', ''Shopping'',
     ''Health'', ''Other'']"

definition getitem :: "expense \<Rightarrow> string \<Rightarrow> py_error + string option" where
  \<comment> \<open>\<^verbatim>\<open>e[k]\<close>: a missing key raises KeyError.\<close>
  "getitem e k = (case map_of (items e) k of None \<Rightarrow> Inl KeyError | Some v \<Rightarrow> Inr v)"

subsection \<open>Text helpers of the Python runtime\<close>

definition py_isspace :: "char \<Rightarrow> bool" where
  \<comment> \<open>The ASCII characters for which \<^verbatim>\<open>str.isspace\<close> holds; white space beyond ASCII
      is not modelled.\<close>
  "py_isspace c = (let n = (of_char c :: nat) in (9 \<le> n \<and> n \<le> 13) \<or> (28 \<le> n \<and> n \<le> 32))"

definition py_strip :: "string \<Rightarrow> string" where
  "py_strip s = rev (dropWhile py_isspace (rev (dropWhile py_isspace s)))"

definition py_lower_char :: "char \<Rightarrow> char" where
  "py_lower_char c =
     (case map_of (zip ''ABCDEFGHIJKLMNOPQRSTUVWXYZ'' ''abcdefghijklmnopqrstuvwxyz'') c of
        None \<Rightarrow> c
      | Some l \<Rightarrow> l)"

definition py_lower :: "string \<Rightarrow> string" where
  "py_lower s = map py_lower_char s"

definition is_digit :: "char \<Rightarrow> bool" where
  "is_digit c = (let n = (of_char c :: nat) in 48 \<le> n \<and> n \<le> 57)"

definition digit_val :: "char \<Rightarrow> nat" where
  "digit_val c = of_char c - 48"

fun parse_digits :: "bool \<Rightarrow> nat \<Rightarrow> string \<Rightarrow> nat option" where
  \<comment> \<open>Decimal digits, single underscores allowed between two digits; the flag says that
      the previous character was a digit.\<close>
  "parse_digits prev acc [] = (if prev then Some acc else None)"
| "parse_digits prev acc (c # cs) =
     (if is_digit c then parse_digits True (10 * acc + digit_val c) cs
      else if c = CHR ''_'' \<and> prev then parse_digits False acc cs
      else None)"

definition int_max_str_digits :: nat where
  "int_max_str_digits = 4300"

definition parse_unsigned :: "string \<Rightarrow> nat option" where
  "parse_unsigned s =
     (if length (filter is_digit s) > int_max_str_digits then None
      else parse_digits False 0 s)"

definition py_int :: "string \<Rightarrow> int option" where
  \<comment> \<open>\<^verbatim>\<open>int(s)\<close> on a string; \<open>None\<close> stands for ValueError.\<close>
  "py_int s =
     (case py_strip s of
        [] \<Rightarrow> None
      | c # cs \<Rightarrow>
          if c = CHR ''-'' then map_option (\<lambda>n. - int n) (parse_unsigned cs)
          else if c = CHR ''+'' then map_option int (parse_unsigned cs)
          else map_option int (parse_unsigned (c # cs)))"

subsection \<open>Floating-point operations of the runtime\<close>

text \<open>
  The program converts amounts with \<^verbatim>\<open>float\<close>, compares, adds and divides them. The
  operations on Python floats are parameters of the model: every definition below that needs
  one takes this record, and every theorem holds for all operations.
\<close>

record 'f float_ops =
  float_of_str :: "string \<Rightarrow> 'f option"  \<comment> \<open>\<^verbatim>\<open>float(s)\<close>; \<open>None\<close> is ValueError\<close>
  float_of_int :: "int \<Rightarrow> 'f"
  fadd :: "'f \<Rightarrow> 'f \<Rightarrow> 'f"
  fmul :: "'f \<Rightarrow> 'f \<Rightarrow> 'f"
  fdiv :: "'f \<Rightarrow> 'f \<Rightarrow> 'f"
  fis_zero :: "'f \<Rightarrow> bool"
  fgt_zero :: "'f \<Rightarrow> bool"
  fstr :: "'f \<Rightarrow> string"

definition to_float :: "'f float_ops \<Rightarrow> string option \<Rightarrow> py_error + 'f" where
  \<comment> \<open>\<^verbatim>\<open>float(v)\<close>: TypeError on \<^verbatim>\<open>None\<close>, ValueError on a malformed string.\<close>
  "to_float ops v =
     (case v of
        Some s \<Rightarrow> (case float_of_str ops s of None \<Rightarrow> Inl ValueError | Some x \<Rightarrow> Inr x)
      | None \<Rightarrow> Inl TypeError)"

definition truediv :: "'f float_ops \<Rightarrow> 'f \<Rightarrow> 'f \<Rightarrow> py_error + 'f" where
  "truediv ops a b = (if fis_zero ops b then Inl ZeroDivisionError else Inr (fdiv ops a b))"


section \<open>Record store: listing, deleting, filtering\<close>

definition fmt_str :: "string option \<Rightarrow> py_error + string" where
  \<comment> \<open>Formatting with a width (\<^verbatim>\<open>{v:<12}\<close>) or slicing then formatting: only a string passes.\<close>
  "fmt_str v = (case v of Some s \<Rightarrow> Inr s | None \<Rightarrow> Inl TypeError)"

definition show_row :: "'f float_ops \<Rightarrow> expense \<Rightarrow> py_error + unit" where
  \<comment> \<open>The row printed by the listings (lines 129-130 and 241-242), for the errors it raises.\<close>
  "show_row ops e =
     (case getitem e ''date'' of Inl x \<Rightarrow> Inl x | Inr d \<Rightarrow>
      case fmt_str d of Inl x \<Rightarrow> Inl x | Inr _ \<Rightarrow>
      case getitem e ''category'' of Inl x \<Rightarrow> Inl x | Inr c \<Rightarrow>
      case fmt_str c of Inl x \<Rightarrow> Inl x | Inr _ \<Rightarrow>
      case getitem e ''description'' of Inl x \<Rightarrow> Inl x | Inr t \<Rightarrow>
      case fmt_str t of Inl x \<Rightarrow> Inl x | Inr _ \<Rightarrow>
      case getitem e ''amount'' of Inl x \<Rightarrow> Inl x | Inr a \<Rightarrow>
      case to_float ops a of Inl x \<Rightarrow> Inl x | Inr _ \<Rightarrow> Inr ())"

fun show_rows :: "'f float_ops \<Rightarrow> expense list \<Rightarrow> py_error + unit" where
  "show_rows ops [] = Inr ()"
| "show_rows ops (e # es) =
     (case show_row ops e of Inl x \<Rightarrow> Inl x | Inr _ \<Rightarrow> show_rows ops es)"

datatype event =
    NoExpensesToDelete
  | Deleted "string option" "string option"
  | InvalidChoice nat
  | InvalidInput

type_synonym 'a session = "py_error + ('a \<times> string list \<times> event list)"

definition with_event :: "event \<Rightarrow> 'a session \<Rightarrow> 'a session" where
  "with_event ev r =
     (case r of Inl x \<Rightarrow> Inl x | Inr (v, inputs, evs) \<Rightarrow> Inr (v, inputs, ev # evs))"

definition pop :: "'a list \<Rightarrow> nat \<Rightarrow> 'a \<times> 'a list" where
  \<comment> \<open>\<^verbatim>\<open>xs.pop(i)\<close> for an index in range.\<close>
  "pop xs i = (xs ! i, take i xs @ drop (Suc i) xs)"

fun delete_loop :: "expense list \<Rightarrow> string list \<Rightarrow> expense list session" where
  \<comment> \<open>Lines 245-262: the prompt loop. Each \<^verbatim>\<open>input()\<close> takes the next line of the input;
      at the end of the input it raises EOFError.\<close>
  "delete_loop expenses [] = Inl EOFError"
| "delete_loop expenses (choice # rest) =
     (if py_lower choice = ''c'' then Inr (expenses, rest, [])
      else case py_int choice of
        None \<Rightarrow> with_event InvalidInput (delete_loop expenses rest)
      | Some n \<Rightarrow>
          if 1 \<le> n \<and> n \<le> int (length expenses) then
            (case pop expenses (nat (n - 1)) of (deleted, expenses') \<Rightarrow>
               case getitem deleted ''description'' of Inl x \<Rightarrow> Inl x | Inr d \<Rightarrow>
               case getitem deleted ''amount'' of Inl x \<Rightarrow> Inl x | Inr a \<Rightarrow>
               (case rest of
                  [] \<Rightarrow> Inl EOFError
                | _ # rest' \<Rightarrow> Inr (expenses', rest', [Deleted d a])))
          else with_event (InvalidChoice (length expenses)) (delete_loop expenses rest))"

definition delete_expense ::
  "'f float_ops \<Rightarrow> expense list \<Rightarrow> string list \<Rightarrow> expense list session" where
  "delete_expense ops expenses inputs =
     (if expenses = [] then
        (case inputs of [] \<Rightarrow> Inl EOFError
         | _ # rest \<Rightarrow> Inr (expenses, rest, [NoExpensesToDelete]))
      else case show_rows ops expenses of
        Inl x \<Rightarrow> Inl x
      | Inr _ \<Rightarrow> delete_loop expenses inputs)"

fun filter_by_category :: "expense list \<Rightarrow> string \<Rightarrow> py_error + expense list" where
  \<comment> \<open>Line 170: \<^verbatim>\<open>[e for e in expenses if e['category'] == selected_category]\<close>.\<close>
  "filter_by_category [] selected = Inr []"
| "filter_by_category (e # es) selected =
     (case getitem e ''category'' of
        Inl x \<Rightarrow> Inl x
      | Inr v \<Rightarrow>
          (case filter_by_category es selected of
             Inl x \<Rightarrow> Inl x
           | Inr r \<Rightarrow> Inr (if v = Some selected then e # r else r)))"

definition new_expense :: "string \<Rightarrow> string \<Rightarrow> string \<Rightarrow> string \<Rightarrow> expense" where
  \<comment> \<open>Lines 99-104: the dictionary that \<^verbatim>\<open>add_expense\<close> builds.\<close>
  "new_expense date category description amount =
     \<lparr>items = [(''date'', Some date), (''category'', Some category),
        (''description'', Some description), (''amount'', Some amount)],
      rest_fields = None\<rparr>"

definition sample_expenses :: "expense list" where
  \<comment> \<open>A two-record collection used to run the operations on a concrete input.\<close>
  "sample_expenses =
     [new_expense ''2024-01-05'' ''Food'' ''Lunch'' ''12.5'',
      new_expense ''2024-01-06'' ''Transport'' ''Bus, return'' ''3.0'']"

section \<open>Persistence adapter\<close>

text \<open>
  The backing file \<^verbatim>\<open>expenses.csv\<close> is read and written through Python's \<^verbatim>\<open>csv\<close> module with
  its default dialect: delimiter comma, quote character double quote, doubled quotes inside a
  quoted field, minimal quoting, no escape character, not strict, line terminator CR LF.
  The file is opened with \<^verbatim>\<open>newline=''\<close>, so the reader receives the lines of the file with
  their line ends untranslated. The definitions follow \<^verbatim>\<open>Modules/_csv.c\<close> and \<^verbatim>\<open>Lib/csv.py\<close> of
  CPython 3.11, where a NUL character is ordinary data. The escape states of the reader's
  automaton are left out: the dialect has no escape character, so they are never entered.
  The encoding of the file is taken to represent every character, as UTF-8 does, so that
  text is written and read back without loss.
\<close>

record filesystem =
  content :: "string option"  \<comment> \<open>the text of the file; \<open>None\<close> if it does not exist\<close>
  readable :: bool  \<comment> \<open>opening it for reading succeeds\<close>
  writable :: bool  \<comment> \<open>opening it for writing succeeds\<close>

datatype report = NoFileFound | Loaded nat | LoadError py_error | Saved | SaveError py_error

definition CR :: char where "CR = CHR 0x0D"
definition LF :: char where "LF = CHR 0x0A"
definition delimiter :: char where "delimiter = CHR '',''"
definition quotechar :: char where "quotechar = CHR 0x22"

definition fieldnames :: "string list" where
  "fieldnames = [''date'', ''category'', ''description'', ''amount'']"

subsection \<open>Writing\<close>

definition needs_quote :: "char \<Rightarrow> bool" where
  "needs_quote c = (c = delimiter \<or> c = quotechar \<or> c = CR \<or> c = LF)"

definition escape_char :: "char \<Rightarrow> string" where
  "escape_char c = (if c = quotechar then [quotechar, quotechar] else [c])"

definition join_field :: "string \<Rightarrow> string" where
  \<comment> \<open>\<^verbatim>\<open>join_append\<close>: a field with a special character is quoted, its quotes doubled.\<close>
  "join_field f =
     (if list_ex needs_quote f then quotechar # concat (map escape_char f) @ [quotechar]
      else f)"

fun join_fields :: "string list \<Rightarrow> string" where
  "join_fields [] = []"
| "join_fields [f] = join_field f"
| "join_fields (f # g # fs) = join_field f @ delimiter # join_fields (g # fs)"

definition writerow :: "string list \<Rightarrow> string" where
  \<comment> \<open>A row whose only field is empty is written as two quotes.\<close>
  "writerow row =
     (if row = [[]] then [quotechar, quotechar] else join_fields row) @ [CR, LF]"




subsection \<open>Reading\<close>

fun splitlines :: "string \<Rightarrow> string list" where
  \<comment> \<open>The lines a text file opened with \<^verbatim>\<open>newline=''\<close> iterates over: a line ends after
      LF, after CR LF, or after a CR that no LF follows; the line ends are kept.\<close>
  "splitlines [] = []"
| "splitlines (c # cs) =
     (if c = LF \<or> (c = CR \<and> (cs = [] \<or> hd cs \<noteq> LF)) then [c] # splitlines cs
      else case splitlines cs of
             [] \<Rightarrow> [[c]]
           | l # ls \<Rightarrow> (c # l) # ls)"

datatype parser_state =
  START_RECORD | START_FIELD | IN_FIELD | IN_QUOTED_FIELD | QUOTE_IN_QUOTED_FIELD | EAT_CRNL

record reader =
  state :: parser_state
  cur_fields :: "string list"
  field :: string

definition field_limit :: nat where
  "field_limit = 131072"

definition parse_reset :: reader where
  "parse_reset = \<lparr>state = START_RECORD, cur_fields = [], field = []\<rparr>"

definition parse_add_char :: "reader \<Rightarrow> char \<Rightarrow> py_error + reader" where
  "parse_add_char rd c =
     (if length (field rd) \<ge> field_limit then Inl CsvFieldLimit
      else Inr (rd\<lparr>field := field rd @ [c]\<rparr>))"

definition parse_save_field :: "reader \<Rightarrow> reader" where
  "parse_save_field rd = rd\<lparr>cur_fields := cur_fields rd @ [field rd], field := []\<rparr>"

definition end_of_record :: "reader \<Rightarrow> char option \<Rightarrow> reader" where
  \<comment> \<open>The field is saved; the end of the line starts a new record, a CR or LF is eaten.\<close>
  "end_of_record rd c =
     (parse_save_field rd)\<lparr>state := (if c = None then START_RECORD else EAT_CRNL)\<rparr>"

definition is_eol :: "char option \<Rightarrow> bool" where
  "is_eol c = (c = Some LF \<or> c = Some CR \<or> c = None)"

definition start_field :: "reader \<Rightarrow> char option \<Rightarrow> py_error + reader" where
  "start_field rd c =
     (if is_eol c then Inr (end_of_record rd c)
      else if c = Some quotechar then Inr (rd\<lparr>state := IN_QUOTED_FIELD\<rparr>)
      else if c = Some delimiter then Inr (parse_save_field rd)
      else case parse_add_char rd (the c) of
             Inl x \<Rightarrow> Inl x
           | Inr rd' \<Rightarrow> Inr (rd'\<lparr>state := IN_FIELD\<rparr>))"

definition parse_process_char :: "reader \<Rightarrow> char option \<Rightarrow> py_error + reader" where
  \<comment> \<open>One step of the reader's automaton; \<open>None\<close> is the end-of-line mark that the reader
      feeds after the characters of each line.\<close>
  "parse_process_char rd c =
     (case state rd of
        START_RECORD \<Rightarrow>
          if c = None then Inr rd
          else if c = Some LF \<or> c = Some CR then Inr (rd\<lparr>state := EAT_CRNL\<rparr>)
          else start_field (rd\<lparr>state := START_FIELD\<rparr>) c
      | START_FIELD \<Rightarrow> start_field rd c
      | IN_FIELD \<Rightarrow>
          if is_eol c then Inr (end_of_record rd c)
          else if c = Some delimiter then Inr ((parse_save_field rd)\<lparr>state := START_FIELD\<rparr>)
          else parse_add_char rd (the c)
      | IN_QUOTED_FIELD \<Rightarrow>
          if c = None then Inr rd
          else if c = Some quotechar then Inr (rd\<lparr>state := QUOTE_IN_QUOTED_FIELD\<rparr>)
          else parse_add_char rd (the c)
      | QUOTE_IN_QUOTED_FIELD \<Rightarrow>
          if c = Some quotechar then
            (case parse_add_char rd quotechar of
               Inl x \<Rightarrow> Inl x
             | Inr rd' \<Rightarrow> Inr (rd'\<lparr>state := IN_QUOTED_FIELD\<rparr>))
          else if c = Some delimiter then Inr ((parse_save_field rd)\<lparr>state := START_FIELD\<rparr>)
          else if is_eol c then Inr (end_of_record rd c)
          else (case parse_add_char rd (the c) of
                  Inl x \<Rightarrow> Inl x
                | Inr rd' \<Rightarrow> Inr (rd'\<lparr>state := IN_FIELD\<rparr>))
      | EAT_CRNL \<Rightarrow>
          if c = Some LF \<or> c = Some CR then Inr rd
          else if c = None then Inr (rd\<lparr>state := START_RECORD\<rparr>)
          else Inl CsvNewLine)"

fun process_chars :: "reader \<Rightarrow> string \<Rightarrow> py_error + reader" where
  "process_chars rd [] = Inr rd"
| "process_chars rd (c # cs) =
     (case parse_process_char rd (Some c) of
        Inl x \<Rightarrow> Inl x
      | Inr rd' \<Rightarrow> process_chars rd' cs)"

definition process_line :: "reader \<Rightarrow> string \<Rightarrow> py_error + reader" where
  "process_line rd line =
     (case process_chars rd line of
        Inl x \<Rightarrow> Inl x
      | Inr rd' \<Rightarrow> parse_process_char rd' None)"

fun read_rows :: "reader \<Rightarrow> string list list \<Rightarrow> string list \<Rightarrow>
    string list list \<times> py_error option" where
  \<comment> \<open>Iterating the reader over the lines of the file: the rows completed so far, and the
      exception that ended the iteration, if any. A row is complete when the automaton is
      back in START_RECORD after a line; the reader then starts afresh. At the end of the
      input an unfinished quoted field closes the last row.\<close>
  "read_rows rd rows [] =
     (if field rd \<noteq> [] \<or> state rd = IN_QUOTED_FIELD
      then (rows @ [cur_fields (parse_save_field rd)], None)
      else (rows, None))"
| "read_rows rd rows (line # lines) =
     (case process_line rd line of
        Inl x \<Rightarrow> (rows, Some x)
      | Inr rd' \<Rightarrow>
          if state rd' = START_RECORD then read_rows parse_reset (rows @ [cur_fields rd']) lines
          else read_rows rd' rows lines)"

definition dict_of_row :: "string list \<Rightarrow> string list \<Rightarrow> expense" where
  \<comment> \<open>\<^verbatim>\<open>DictReader.__next__\<close>: the row zipped with the column names; extra fields go
      under the key \<^verbatim>\<open>None\<close>, missing ones are \<^verbatim>\<open>None\<close>.\<close>
  "dict_of_row names row =
     (let d = foldl (\<lambda>d (k, v). AList.update k (Some v) d) [] (zip names row);
          lf = length names; lr = length row
      in if lf < lr then \<lparr>items = d, rest_fields = Some (drop lf row)\<rparr>
         else \<lparr>items = foldl (\<lambda>d k. AList.update k None d) d (drop lr names),
               rest_fields = None\<rparr>)"

definition dict_reader :: "string list list \<Rightarrow> expense list" where
  \<comment> \<open>The first row gives the column names; empty rows after it are skipped.\<close>
  "dict_reader rows =
     (case rows of
        [] \<Rightarrow> []
      | names # data \<Rightarrow> map (dict_of_row names) (filter (\<lambda>row. row \<noteq> []) data))"

definition load_expenses :: "filesystem \<Rightarrow> expense list \<times> report" where
  \<comment> \<open>Lines 26-40. Rows are appended one by one inside the \<^verbatim>\<open>try\<close>; an exception leaves
      the rows appended before it in the list that is returned.\<close>
  "load_expenses fs =
     (case content fs of
        None \<Rightarrow> ([], NoFileFound)
      | Some text \<Rightarrow>
          if \<not> readable fs then ([], LoadError OSError)
          else case read_rows parse_reset [] (splitlines text) of
                 (rows, None) \<Rightarrow>
                   (let expenses = dict_reader rows in (expenses, Loaded (length expenses)))
               | (rows, Some x) \<Rightarrow> (dict_reader rows, LoadError x))"

subsection \<open>The reader, character by character\<close>

definition line_ends :: "char \<Rightarrow> string \<Rightarrow> bool" where
  \<comment> \<open>Whether a line of the file ends after the character \<open>c\<close> that the text \<open>cs\<close> follows.\<close>
  "line_ends c cs = (c = LF \<or> (c = CR \<and> (cs = [] \<or> hd cs \<noteq> LF)) \<or> cs = [])"

fun feed :: "reader \<Rightarrow> string list list \<Rightarrow> string \<Rightarrow> string list list \<times> py_error option" where
  \<comment> \<open>\<open>read_rows\<close> over the lines of a text, written as one pass over its characters;
      \<open>read_rows_splitlines\<close> below proves the two equal.\<close>
  "feed rd rows [] = read_rows rd rows []"
| "feed rd rows (c # cs) =
     (case parse_process_char rd (Some c) of
        Inl x \<Rightarrow> (rows, Some x)
      | Inr rd' \<Rightarrow>
          if line_ends c cs then
            (case parse_process_char rd' None of
               Inl x \<Rightarrow> (rows, Some x)
             | Inr rd'' \<Rightarrow>
                 if state rd'' = START_RECORD
                 then feed parse_reset (rows @ [cur_fields rd'']) cs
                 else feed rd'' rows cs)
          else feed rd' rows cs)"





subsection \<open>Concrete files and records\<close>





definition foreign_text :: string where
  \<comment> \<open>A file written by another program, with a category of its own.\<close>
  "foreign_text = ''date,category,description,amount'' @ [CR, LF]
     @ ''2024-01-01,Misc,x,-5'' @ [CR, LF]"

section \<open>Adding a record and the aggregate views\<close>

text \<open>
  Arithmetic on amounts follows CPython 3.11: \<^verbatim>\<open>sum\<close> starts from the integer 0 and adds
  the items from left to right with float addition.
\<close>

datatype add_event =
    CategoryNotANumber
  | CategoryOutOfRange
  | AmountNotANumber
  | AmountNotPositive

type_synonym 'a prompt = "py_error + ('a \<times> string list \<times> add_event list)"

definition with_add_event :: "add_event \<Rightarrow> 'a prompt \<Rightarrow> 'a prompt" where
  "with_add_event ev r =
     (case r of Inl x \<Rightarrow> Inl x | Inr (v, inputs, evs) \<Rightarrow> Inr (v, inputs, ev # evs))"

fun read_category :: "string list \<Rightarrow> string prompt" where
  \<comment> \<open>Lines 71-80: asks until the input is a number from 1 to 7.\<close>
  "read_category [] = Inl EOFError"
| "read_category (s # inputs) =
     (case py_int s of
        None \<Rightarrow> with_add_event CategoryNotANumber (read_category inputs)
      | Some choice \<Rightarrow>
          if 1 \<le> choice \<and> choice \<le> 7 then Inr (CATEGORIES ! nat (choice - 1), inputs, [])
          else with_add_event CategoryOutOfRange (read_category inputs))"

fun read_amount :: "'f float_ops \<Rightarrow> string list \<Rightarrow> 'f prompt" where
  \<comment> \<open>Lines 88-96: asks until the input is a float greater than 0.\<close>
  "read_amount ops [] = Inl EOFError"
| "read_amount ops (s # inputs) =
     (case float_of_str ops s of
        None \<Rightarrow> with_add_event AmountNotANumber (read_amount ops inputs)
      | Some amount \<Rightarrow>
          if fgt_zero ops amount then Inr (amount, inputs, [])
          else with_add_event AmountNotPositive (read_amount ops inputs))"

definition add_expense ::
  "'f float_ops \<Rightarrow> string \<Rightarrow> expense list \<Rightarrow> string list \<Rightarrow> expense list prompt" where
  \<comment> \<open>Lines 54-113; \<open>date\<close> is the current date as \<^verbatim>\<open>strftime\<close> formats it. The last
      \<^verbatim>\<open>input()\<close> waits for Enter.\<close>
  "add_expense ops date expenses inputs =
     (case read_category inputs of
        Inl x \<Rightarrow> Inl x
      | Inr (category, inputs1, evs1) \<Rightarrow>
          (case inputs1 of
             [] \<Rightarrow> Inl EOFError
           | line # inputs2 \<Rightarrow>
               let description =
                     (if py_strip line = [] then ''No description'' else py_strip line)
               in case read_amount ops inputs2 of
                    Inl x \<Rightarrow> Inl x
                  | Inr (amount, inputs3, evs2) \<Rightarrow>
                      (case inputs3 of
                         [] \<Rightarrow> Inl EOFError
                       | _ # inputs4 \<Rightarrow>
                           Inr (expenses @ [new_expense date category description
                                             (fstr ops amount)],
                                inputs4, evs1 @ evs2))))"

fun sum_amounts :: "'f float_ops \<Rightarrow> 'f \<Rightarrow> expense list \<Rightarrow> py_error + 'f" where
  \<comment> \<open>\<^verbatim>\<open>sum(float(e['amount']) for e in ...)\<close>, continued from the partial sum \<open>acc\<close>.\<close>
  "sum_amounts ops acc [] = Inr acc"
| "sum_amounts ops acc (e # es) =
     (case getitem e ''amount'' of
        Inl x \<Rightarrow> Inl x
      | Inr v \<Rightarrow>
          (case to_float ops v of
             Inl x \<Rightarrow> Inl x
           | Inr a \<Rightarrow> sum_amounts ops (fadd ops acc a) es))"

definition total :: "'f float_ops \<Rightarrow> expense list \<Rightarrow> py_error + 'f" where
  \<comment> \<open>Lines 133 and 202.\<close>
  "total ops expenses = sum_amounts ops (float_of_int ops 0) expenses"


type_synonym 'f breakdown_row = "string \<times> nat \<times> 'f \<times> 'f"

fun breakdown ::
  "'f float_ops \<Rightarrow> expense list \<Rightarrow> 'f \<Rightarrow> string list \<Rightarrow> py_error + 'f breakdown_row list" where
  \<comment> \<open>Lines 212-218: one row (category, count, amount, percentage) for each category
      that has records, in the order of the category list.\<close>
  "breakdown ops expenses t [] = Inr []"
| "breakdown ops expenses t (category # categories) =
     (case filter_by_category expenses category of
        Inl x \<Rightarrow> Inl x
      | Inr category_expenses \<Rightarrow>
          if category_expenses = [] then breakdown ops expenses t categories
          else
            (case total ops category_expenses of
               Inl x \<Rightarrow> Inl x
             | Inr amount \<Rightarrow>
                 (case truediv ops amount t of
                    Inl x \<Rightarrow> Inl x
                  | Inr q \<Rightarrow>
                      (case breakdown ops expenses t categories of
                         Inl x \<Rightarrow> Inl x
                       | Inr rows \<Rightarrow>
                           Inr ((category, length category_expenses, amount,
                                 fmul ops q (float_of_int ops 100)) # rows)))))"



subsection \<open>An instance of the float operations that records what is computed\<close>

text \<open>
  To run the definitions on concrete inputs, floats are taken as the expressions that
  compute them. A literal is accepted when it is a plain decimal numeral; it is positive
  when it has no minus sign and some digit other than 0. The text of a literal is the
  literal itself. Only literals are compared with zero by the program's input checks.
\<close>

datatype fexpr =
    FloatOfStr string
  | FloatOfInt int
  | FAdd fexpr fexpr
  | FMul fexpr fexpr
  | FDiv fexpr fexpr

definition decimal_literal :: "string \<Rightarrow> bool" where
  "decimal_literal s =
     (let t = (case py_strip s of
                 [] \<Rightarrow> []
               | c # cs \<Rightarrow> if c = CHR ''-'' \<or> c = CHR ''+'' then cs else c # cs)
      in list_ex is_digit t \<and> list_all (\<lambda>c. is_digit c \<or> c = CHR ''.'') t
         \<and> length (filter (\<lambda>c. c = CHR ''.'') t) \<le> 1)"

definition zero_literal :: "string \<Rightarrow> bool" where
  "zero_literal s = list_all (\<lambda>c. c = CHR ''0'') (filter is_digit s)"

fun fexpr_is_zero :: "fexpr \<Rightarrow> bool" where
  "fexpr_is_zero (FloatOfStr s) = zero_literal s"
| "fexpr_is_zero (FloatOfInt n) = (n = 0)"
| "fexpr_is_zero _ = False"

fun fexpr_gt_zero :: "fexpr \<Rightarrow> bool" where
  "fexpr_gt_zero (FloatOfStr s) = (\<not> zero_literal s \<and> CHR ''-'' \<notin> set s)"
| "fexpr_gt_zero (FloatOfInt n) = (0 < n)"
| "fexpr_gt_zero _ = False"

fun fexpr_str :: "fexpr \<Rightarrow> string" where
  "fexpr_str (FloatOfStr s) = py_strip s"
| "fexpr_str _ = ''?''"

definition recording_ops :: "fexpr float_ops" where
  "recording_ops =
     \<lparr>float_of_str = (\<lambda>s. if decimal_literal s then Some (FloatOfStr s) else None),
      float_of_int = FloatOfInt, fadd = FAdd, fmul = FMul, fdiv = FDiv,
      fis_zero = fexpr_is_zero, fgt_zero = fexpr_gt_zero, fstr = fexpr_str\<rparr>"

section \<open>Properties of the record store\<close>

lemma py_lower_char_c: "py_lower_char x = CHR ''c'' \<longleftrightarrow> x = CHR ''c'' \<or> x = CHR ''C''"
  by (auto simp: py_lower_char_def split: if_splits)

lemma py_lower_c: "py_lower s = ''c'' \<longleftrightarrow> s = ''c'' \<or> s = ''C''"
proof (cases s)
  case Nil
  then show ?thesis by (simp add: py_lower_def)
next
  case (Cons x xs)
  then show ?thesis by (cases xs) (auto simp: py_lower_def py_lower_char_c)
qed



lemma py_int_samples: "py_int ''2'' = Some 2" "py_int ''0'' = Some 0" "py_int ''3'' = Some 3"
  by (simp_all add: py_int_def py_strip_def py_isspace_def parse_unsigned_def is_digit_def
      int_max_str_digits_def digit_val_def)




text \<open>
  The whole operation first lists the records; when the listing succeeds it is the prompt
  loop, and on an empty collection it only reports that there is nothing to delete.
\<close>

lemma delete_expense_prompt:
  assumes "expenses \<noteq> []" and "show_rows ops expenses = Inr ()"
  shows "delete_expense ops expenses inputs = delete_loop expenses inputs"
  using assms by (simp add: delete_expense_def)

lemma delete_expense_empty:
  "delete_expense ops [] (enter # inputs) = Inr ([], inputs, [NoExpensesToDelete])"
  by (simp add: delete_expense_def)



text \<open>
  Claim C10. Entering \<^verbatim>\<open>c\<close> or \<^verbatim>\<open>C\<close> at the delete prompt returns the collection
  unchanged: no record is removed and every record keeps its position.
\<close>

theorem cancel_keeps_collection:
  assumes "choice = ''c'' \<or> choice = ''C''"
  shows "delete_loop expenses (choice # rest) = Inr (expenses, rest, [])"
  using assms by (simp add: py_lower_c)

theorem cancel_keeps_collection_witness:
  "delete_loop sample_expenses [''C'', ''6''] = Inr (sample_expenses, [''6''], [])
   \<and> delete_loop sample_expenses [''c''] = Inr (sample_expenses, [], [])"
  using cancel_keeps_collection[of "''C''" sample_expenses "[''6'']"]
    cancel_keeps_collection[of "''c''" sample_expenses "[]"]
  by simp

lemma filter_by_category_eq:
  assumes "\<forall>e \<in> set expenses. getitem e ''category'' \<noteq> Inl KeyError"
  shows "filter_by_category expenses c =
     Inr (filter (\<lambda>e. getitem e ''category'' = Inr (Some c)) expenses)"
  using assms by (induction expenses) (auto simp: getitem_def split: option.splits)

text \<open>
  Claim C5. On a collection whose records all have a category field, the category filter
  returns exactly the records whose category equals the selected one, in their original
  relative order, and the length of the result plus the number of records that do not match
  is the length of the collection.
\<close>

theorem filter_by_category_spec:
  assumes "\<forall>e \<in> set expenses. getitem e ''category'' \<noteq> Inl KeyError"
  shows "\<exists>filtered.
      filter_by_category expenses selected = Inr filtered
    \<and> filtered = filter (\<lambda>e. getitem e ''category'' = Inr (Some selected)) expenses
    \<and> subseq filtered expenses
    \<and> (\<forall>e. e \<in> set filtered \<longleftrightarrow>
           e \<in> set expenses \<and> getitem e ''category'' = Inr (Some selected))
    \<and> length filtered
        + length (filter (\<lambda>e. getitem e ''category'' \<noteq> Inr (Some selected)) expenses)
        = length expenses"
proof -
  let ?P = "\<lambda>e. getitem e ''category'' = Inr (Some selected)"
  have "length (filter ?P expenses) + length (filter (\<lambda>e. \<not> ?P e) expenses) = length expenses"
    by (rule sum_length_filter_compl)
  then show ?thesis
    using filter_by_category_eq[OF assms, of selected] by simp
qed

theorem filter_by_category_spec_witness:
  "filter_by_category sample_expenses ''Transport'' =
     Inr [new_expense ''2024-01-06'' ''Transport'' ''Bus, return'' ''3.0'']
   \<and> length [new_expense ''2024-01-06'' ''Transport'' ''Bus, return'' ''3.0'']
       + length (filter (\<lambda>e. getitem e ''category'' \<noteq> Inr (Some ''Transport''))
           sample_expenses) = length sample_expenses"
  using filter_by_category_spec[of sample_expenses "''Transport''"]
  by (simp add: sample_expenses_def new_expense_def getitem_def)

section \<open>Properties of the persistence adapter\<close>

subsection \<open>The reader over lines is the reader over characters\<close>


lemma specials_distinct [simp]:
  "CR \<noteq> LF" "LF \<noteq> CR" "CR \<noteq> delimiter" "delimiter \<noteq> CR" "CR \<noteq> quotechar" "quotechar \<noteq> CR"
  "LF \<noteq> delimiter" "delimiter \<noteq> LF" "LF \<noteq> quotechar" "quotechar \<noteq> LF"
  "delimiter \<noteq> quotechar" "quotechar \<noteq> delimiter"
  by (simp_all add: CR_def LF_def delimiter_def quotechar_def)

lemma splitlines_nonempty: "cs \<noteq> [] \<Longrightarrow> splitlines cs \<noteq> []"
  by (cases cs) (auto split: list.splits)

lemma process_line_Cons:
  "process_line rd (c # l) =
     (case parse_process_char rd (Some c) of Inl x \<Rightarrow> Inl x | Inr rd' \<Rightarrow> process_line rd' l)"
  by (simp add: process_line_def split: sum.splits)

lemma process_line_Nil: "process_line rd [] = parse_process_char rd None"
  by (simp add: process_line_def)

lemma read_rows_splitlines: "read_rows rd rows (splitlines s) = feed rd rows s"
proof (induction s arbitrary: rd rows)
  case Nil
  show ?case by simp
next
  case (Cons c cs)
  show ?case
  proof (cases "c = LF \<or> (c = CR \<and> (cs = [] \<or> hd cs \<noteq> LF))")
    case True
    then have "splitlines (c # cs) = [c] # splitlines cs" by simp
    moreover have "line_ends c cs" using True by (auto simp: line_ends_def)
    ultimately show ?thesis
      by (simp add: Cons.IH process_line_Cons process_line_Nil split: sum.splits)
  next
    case False
    show ?thesis
    proof (cases cs)
      case Nil
      then have "splitlines (c # cs) = [[c]]" using False by simp
      moreover have "line_ends c cs" using Nil by (simp add: line_ends_def)
      ultimately show ?thesis using Nil
        by (simp add: process_line_Cons process_line_Nil split: sum.splits)
    next
      case (Cons d ds)
      then obtain l ls where ls: "splitlines cs = l # ls"
        using splitlines_nonempty[of cs] by (cases "splitlines cs") auto
      then have sl: "splitlines (c # cs) = (c # l) # ls" using False by simp
      have ne: "\<not> line_ends c cs" using False Cons by (auto simp: line_ends_def)
      have "read_rows rd rows ((c # l) # ls) =
          (case parse_process_char rd (Some c) of
             Inl x \<Rightarrow> (rows, Some x)
           | Inr rd' \<Rightarrow> read_rows rd' rows (l # ls))"
        by (simp add: process_line_Cons split: sum.splits)
      then show ?thesis using sl ne ls Cons.IH[symmetric]
        by (simp split: sum.splits)
    qed
  qed
qed

subsection \<open>Reading back what the writer wrote\<close>


lemma line_ends_ordinary:
  "c \<noteq> LF \<Longrightarrow> c \<noteq> CR \<Longrightarrow> cs \<noteq> [] \<Longrightarrow> \<not> line_ends c cs"
  by (simp add: line_ends_def)

lemma feed_in_field:
  assumes "state rd = IN_FIELD" and "\<forall>c \<in> set s. \<not> needs_quote c"
    and "length (field rd) + length s \<le> field_limit" and "after \<noteq> []"
  shows "feed rd rows (s @ after) = feed (rd\<lparr>field := field rd @ s\<rparr>) rows after"
  using assms
proof (induction s arbitrary: rd)
  case Nil
  then show ?case by simp
next
  case (Cons c s)
  let ?rd = "rd\<lparr>field := field rd @ [c]\<rparr>"
  have c: "c \<noteq> LF" "c \<noteq> CR" "c \<noteq> delimiter" "c \<noteq> quotechar"
    using Cons.prems(2) by (auto simp: needs_quote_def)
  have step: "parse_process_char rd (Some c) = Inr ?rd"
    using Cons.prems c by (simp add: parse_process_char_def is_eol_def parse_add_char_def)
  have ne: "\<not> line_ends c (s @ after)"
    using c Cons.prems(4) by (simp add: line_ends_ordinary)
  have "feed rd rows ((c # s) @ after) = feed ?rd rows (s @ after)"
    using step ne by simp
  also have "\<dots> = feed (?rd\<lparr>field := field ?rd @ s\<rparr>) rows after"
    using Cons.prems by (intro Cons.IH) auto
  finally show ?case by simp
qed

lemma feed_in_quoted:
  assumes "state rd = IN_QUOTED_FIELD"
    and "length (field rd) + length body \<le> field_limit" and "after \<noteq> []"
  shows "feed rd rows (concat (map escape_char body) @ after)
         = feed (rd\<lparr>field := field rd @ body\<rparr>) rows after"
  using assms
proof (induction body arbitrary: rd)
  case Nil
  then show ?case by simp
next
  case (Cons c body)
  let ?rd = "rd\<lparr>field := field rd @ [c]\<rparr>"
  let ?rest = "concat (map escape_char body) @ after"
  have rest: "?rest \<noteq> []" using Cons.prems(3) by simp
  have lim: "length (field rd) < field_limit" using Cons.prems(2) by simp
  have "feed rd rows (escape_char c @ ?rest) = feed ?rd rows ?rest"
  proof (cases "c = quotechar")
    case True
    let ?q = "rd\<lparr>state := QUOTE_IN_QUOTED_FIELD\<rparr>"
    have 1: "parse_process_char rd (Some quotechar) = Inr ?q"
      using Cons.prems(1) by (simp add: parse_process_char_def)
    have 2: "parse_process_char ?q (Some quotechar) = Inr ?rd"
      using Cons.prems(1) lim True by (simp add: parse_process_char_def parse_add_char_def)
    have 3: "\<not> line_ends quotechar (quotechar # ?rest)" "\<not> line_ends quotechar ?rest"
      using rest by (simp_all add: line_ends_ordinary)
    show ?thesis using True 1 2 3 by (simp add: escape_char_def)
  next
    case False
    have 1: "parse_process_char rd (Some c) = Inr ?rd"
      using Cons.prems(1) lim False by (simp add: parse_process_char_def parse_add_char_def)
    have 2: "parse_process_char ?rd None = Inr ?rd"
      using Cons.prems(1) by (simp add: parse_process_char_def)
    show ?thesis using False 1 2 Cons.prems(1) by (simp add: escape_char_def)
  qed
  also have "\<dots> = feed (?rd\<lparr>field := field ?rd @ body\<rparr>) rows after"
    using Cons.prems by (intro Cons.IH) auto
  finally show ?case by simp
qed

lemma feed_field_body:
  assumes "state rd = START_FIELD" and "field rd = []" and "length f \<le> field_limit"
    and "after \<noteq> []"
  shows "\<exists>st \<in> {START_FIELD, IN_FIELD, QUOTE_IN_QUOTED_FIELD}.
           feed rd rows (join_field f @ after) = feed (rd\<lparr>state := st, field := f\<rparr>) rows after"
proof (cases "list_ex needs_quote f")
  case True
  let ?q = "rd\<lparr>state := IN_QUOTED_FIELD\<rparr>"
  let ?tail = "quotechar # after"
  have 1: "parse_process_char rd (Some quotechar) = Inr ?q"
    using assms(1) by (simp add: parse_process_char_def start_field_def is_eol_def)
  have 2: "\<not> line_ends quotechar (concat (map escape_char f) @ ?tail)"
    by (simp add: line_ends_ordinary)
  have 3: "feed ?q rows (concat (map escape_char f) @ ?tail)
           = feed (?q\<lparr>field := field ?q @ f\<rparr>) rows ?tail"
    using assms by (intro feed_in_quoted) auto
  have 4: "parse_process_char (?q\<lparr>field := field ?q @ f\<rparr>) (Some quotechar)
           = Inr (rd\<lparr>state := QUOTE_IN_QUOTED_FIELD, field := f\<rparr>)"
    using assms(2) by (simp add: parse_process_char_def)
  have 5: "\<not> line_ends quotechar after" using assms(4) by (simp add: line_ends_ordinary)
  have "feed rd rows (join_field f @ after)
        = feed (rd\<lparr>state := QUOTE_IN_QUOTED_FIELD, field := f\<rparr>) rows after"
    using True 1 2 3 4 5 by (simp add: join_field_def)
  then show ?thesis by blast
next
  case False
  then have ord: "\<forall>c \<in> set f. \<not> needs_quote c" by (simp add: list_ex_iff)
  show ?thesis
  proof (cases f)
    case Nil
    have "rd\<lparr>state := START_FIELD, field := []\<rparr> = rd" using assms(1,2) by simp
    then show ?thesis using Nil False by (simp add: join_field_def)
  next
    case (Cons c s)
    let ?rd = "rd\<lparr>field := [c], state := IN_FIELD\<rparr>"
    have c: "c \<noteq> LF" "c \<noteq> CR" "c \<noteq> delimiter" "c \<noteq> quotechar"
      using ord Cons by (auto simp: needs_quote_def)
    have lim: "0 < field_limit" by (simp add: field_limit_def)
    have 1: "parse_process_char rd (Some c) = Inr ?rd"
      using assms(1,2) c lim
      by (simp add: parse_process_char_def start_field_def is_eol_def parse_add_char_def)
    have 2: "\<not> line_ends c (s @ after)" using c assms(4) by (simp add: line_ends_ordinary)
    have 3: "feed ?rd rows (s @ after) = feed (?rd\<lparr>field := field ?rd @ s\<rparr>) rows after"
      using ord Cons assms(3,4) by (intro feed_in_field) auto
    have "feed rd rows (join_field f @ after) = feed (rd\<lparr>state := IN_FIELD, field := f\<rparr>) rows after"
      using False Cons 1 2 3 by (simp add: join_field_def)
    then show ?thesis by blast
  qed
qed


lemma feed_field_delim:
  assumes "state rd = START_FIELD" and "field rd = []" and "length f \<le> field_limit"
    and "after \<noteq> []"
  shows "feed rd rows (join_field f @ delimiter # after)
         = feed (rd\<lparr>cur_fields := cur_fields rd @ [f]\<rparr>) rows after"
proof -
  obtain st where st: "st \<in> {START_FIELD, IN_FIELD, QUOTE_IN_QUOTED_FIELD}"
    and body: "feed rd rows (join_field f @ delimiter # after)
               = feed (rd\<lparr>state := st, field := f\<rparr>) rows (delimiter # after)"
    using feed_field_body[OF assms(1,2,3), of "delimiter # after" rows] by blast
  have "parse_process_char (rd\<lparr>state := st, field := f\<rparr>) (Some delimiter)
        = Inr (rd\<lparr>cur_fields := cur_fields rd @ [f]\<rparr>)"
    using st assms(1,2)
    by (auto simp: parse_process_char_def start_field_def is_eol_def parse_save_field_def)
  moreover have "\<not> line_ends delimiter after"
    using assms(4) by (simp add: line_ends_ordinary)
  ultimately show ?thesis using body by simp
qed

lemma feed_field_crlf:
  assumes "state rd = START_FIELD" and "field rd = []" and "length f \<le> field_limit"
  shows "feed rd rows (join_field f @ CR # LF # after)
         = feed parse_reset (rows @ [cur_fields rd @ [f]]) after"
proof -
  let ?eat = "\<lparr>state = EAT_CRNL, cur_fields = cur_fields rd @ [f], field = []\<rparr>"
  obtain st where st: "st \<in> {START_FIELD, IN_FIELD, QUOTE_IN_QUOTED_FIELD}"
    and body: "feed rd rows (join_field f @ CR # LF # after)
               = feed (rd\<lparr>state := st, field := f\<rparr>) rows (CR # LF # after)"
    using feed_field_body[OF assms(1,2,3), of "CR # LF # after" rows] by blast
  have 1: "parse_process_char (rd\<lparr>state := st, field := f\<rparr>) (Some CR) = Inr ?eat"
    using st
    by (auto simp: parse_process_char_def start_field_def is_eol_def parse_save_field_def
        end_of_record_def)
  have 2: "\<not> line_ends CR (LF # after)" by (simp add: line_ends_def)
  have 3: "parse_process_char ?eat (Some LF) = Inr ?eat"
    by (simp add: parse_process_char_def)
  have 4: "line_ends LF after" by (simp add: line_ends_def)
  have 5: "parse_process_char ?eat None = Inr (?eat\<lparr>state := START_RECORD\<rparr>)"
    by (simp add: parse_process_char_def)
  show ?thesis using body 1 2 3 4 5 by simp
qed

lemma feed_join_fields:
  assumes "fs \<noteq> []" and "\<forall>f \<in> set fs. length f \<le> field_limit"
    and "state rd = START_FIELD" and "field rd = []"
  shows "feed rd rows (join_fields fs @ CR # LF # after)
         = feed parse_reset (rows @ [cur_fields rd @ fs]) after"
  using assms
proof (induction fs arbitrary: rd rule: join_fields.induct)
  case 1
  then show ?case by simp
next
  case (2 f)
  then show ?case using feed_field_crlf[of rd f rows after] by simp
next
  case (3 f g fs)
  let ?rd = "rd\<lparr>cur_fields := cur_fields rd @ [f]\<rparr>"
  have "feed rd rows (join_fields (f # g # fs) @ CR # LF # after)
        = feed ?rd rows (join_fields (g # fs) @ CR # LF # after)"
    using 3 feed_field_delim[of rd f "join_fields (g # fs) @ CR # LF # after" rows] by simp
  also have "\<dots> = feed parse_reset (rows @ [cur_fields ?rd @ g # fs]) after"
    using 3 by (intro "3.IH") auto
  finally show ?case by simp
qed

lemma hd_join_field:
  "join_field f \<noteq> [] \<Longrightarrow> hd (join_field f) \<noteq> CR \<and> hd (join_field f) \<noteq> LF"
  by (cases f) (auto simp: join_field_def needs_quote_def)

lemma start_record_as_start_field:
  assumes "c \<noteq> CR" and "c \<noteq> LF"
  shows "feed parse_reset rows (c # cs) = feed (parse_reset\<lparr>state := START_FIELD\<rparr>) rows (c # cs)"
  using assms by (simp add: parse_process_char_def parse_reset_def)

lemma feed_writerow:
  assumes "2 \<le> length row" and "\<forall>f \<in> set row. length f \<le> field_limit"
  shows "feed parse_reset rows (writerow row @ after) = feed parse_reset (rows @ [row]) after"
proof -
  obtain f g fs where row: "row = f # g # fs"
    using assms(1) by (cases row; cases "tl row") auto
  let ?s = "join_fields row @ CR # LF # after"
  have w: "writerow row @ after = ?s" using row by (simp add: writerow_def)
  have "?s = join_field f @ delimiter # join_fields (g # fs) @ CR # LF # after"
    using row by simp
  then obtain c cs where s: "?s = c # cs" and c: "c \<noteq> CR" "c \<noteq> LF"
    using hd_join_field[of f] by (cases "join_field f") auto
  have "feed parse_reset rows ?s = feed (parse_reset\<lparr>state := START_FIELD\<rparr>) rows ?s"
    unfolding s using c by (rule start_record_as_start_field)
  also have "\<dots> = feed parse_reset (rows @ [row]) after"
    using feed_join_fields[of row "parse_reset\<lparr>state := START_FIELD\<rparr>" rows after] assms row
    by (simp add: parse_reset_def)
  finally show ?thesis using w by simp
qed

lemma feed_rows:
  assumes "\<forall>row \<in> set rs. 2 \<le> length row \<and> (\<forall>f \<in> set row. length f \<le> field_limit)"
  shows "feed parse_reset rows (concat (map writerow rs)) = (rows @ rs, None)"
  using assms
proof (induction rs arbitrary: rows)
  case Nil
  then show ?case by (simp add: parse_reset_def)
next
  case (Cons row rs)
  have "feed parse_reset rows (writerow row @ concat (map writerow rs))
        = feed parse_reset (rows @ [row]) (concat (map writerow rs))"
    using Cons.prems by (intro feed_writerow) auto
  then show ?case using Cons by simp
qed













subsection \<open>The field limit\<close>







lemma load_text:
  "load_expenses \<lparr>content = Some s, readable = True, writable = w\<rparr> =
     (case read_rows parse_reset [] (splitlines s) of
        (rows, None) \<Rightarrow> (dict_reader rows, Loaded (length (dict_reader rows)))
      | (rows, Some x) \<Rightarrow> (dict_reader rows, LoadError x))"
  by (simp add: load_expenses_def Let_def split: prod.splits option.splits)


lemma dict_of_row_new_expense: "dict_of_row fieldnames [d, c, t, a] = new_expense d c t a"
  by (simp add: dict_of_row_def fieldnames_def new_expense_def)


subsection \<open>Where a failing read stops\<close>






subsection \<open>Claims about loading and saving\<close>








text \<open>
  Claim C7. If the backing file does not exist, load returns an empty collection and
  reports that no file was found; no failure is reported.
\<close>

theorem load_missing_file:
  "load_expenses \<lparr>content = None, readable = r, writable = w\<rparr> = ([], NoFileFound)"
  by (simp add: load_expenses_def)

section \<open>Properties of adding a record and of the summary\<close>

lemma read_category_member:
  "read_category inputs = Inr (category, rest, evs) \<Longrightarrow> category \<in> set CATEGORIES"
proof (induction inputs arbitrary: evs)
  case Nil
  then show ?case by simp
next
  case (Cons s inputs)
  show ?case
  proof (cases "py_int s")
    case None
    then show ?thesis using Cons
      by (auto simp: with_add_event_def split: sum.splits)
  next
    case (Some choice)
    show ?thesis
    proof (cases "1 \<le> choice \<and> choice \<le> 7")
      case True
      then have "nat (choice - 1) < 7" by linarith
      then have "nat (choice - 1) < length CATEGORIES" by (simp add: CATEGORIES_def)
      then have "CATEGORIES ! nat (choice - 1) \<in> set CATEGORIES" by (rule nth_mem)
      then show ?thesis using Cons.prems Some True by simp
    next
      case False
      then show ?thesis using Cons Some
        by (auto simp: with_add_event_def split: sum.splits)
    qed
  qed
qed

lemma read_category_rest:
  "read_category inputs = Inr (category, rest, evs) \<Longrightarrow> set rest \<subseteq> set inputs"
proof (induction inputs arbitrary: evs)
  case Nil
  then show ?case by simp
next
  case (Cons s inputs)
  show ?case
  proof (cases "py_int s")
    case None
    then show ?thesis using Cons
      by (auto simp: with_add_event_def split: sum.splits)
  next
    case (Some choice)
    then show ?thesis using Cons
      by (cases "1 \<le> choice \<and> choice \<le> 7")
        (auto simp: with_add_event_def split: sum.splits)
  qed
qed

lemma read_amount_positive:
  "read_amount ops inputs = Inr (amount, rest, evs) \<Longrightarrow>
     fgt_zero ops amount \<and> (\<exists>s \<in> set inputs. float_of_str ops s = Some amount)"
proof (induction inputs arbitrary: evs)
  case Nil
  then show ?case by simp
next
  case (Cons s inputs)
  show ?case
  proof (cases "float_of_str ops s")
    case None
    then show ?thesis using Cons
      by (auto simp: with_add_event_def split: sum.splits)
  next
    case (Some a)
    then show ?thesis using Cons
      by (cases "fgt_zero ops a") (auto simp: with_add_event_def split: sum.splits)
  qed
qed

lemma recording_literals:
  "float_of_str recording_ops ''12.5'' = Some (FloatOfStr ''12.5'')"
  "float_of_str recording_ops ''3.0'' = Some (FloatOfStr ''3.0'')"
  "float_of_str recording_ops ''7.25'' = Some (FloatOfStr ''7.25'')"
  "fgt_zero recording_ops (FloatOfStr ''7.25'')"
  "fstr recording_ops (FloatOfStr ''7.25'') = ''7.25''"
  by (simp_all add: recording_ops_def decimal_literal_def zero_literal_def py_strip_def
      py_isspace_def is_digit_def)



text \<open>
  The breakdown has one row for each category of the list that has a record, in the order of
  the list; the total of no records is the float of the integer 0.
\<close>

lemma filter_by_category_Inr:
  "filter_by_category expenses selected = Inr r \<Longrightarrow>
     r = filter (\<lambda>e. getitem e ''category'' = Inr (Some selected)) expenses"
  by (induction expenses arbitrary: r) (auto split: sum.splits)

lemma breakdown_categories:
  assumes "breakdown ops expenses t categories = Inr rows"
  shows "map fst rows
         = filter (\<lambda>c. \<exists>e \<in> set expenses. getitem e ''category'' = Inr (Some c)) categories"
  using assms
proof (induction categories arbitrary: rows)
  case Nil
  then show ?case by simp
next
  case (Cons c categories)
  obtain r where r: "filter_by_category expenses c = Inr r"
    using Cons.prems by (auto split: sum.splits)
  have e: "(r = []) = (\<not> (\<exists>e \<in> set expenses. getitem e ''category'' = Inr (Some c)))"
    using filter_by_category_Inr[OF r] by (auto simp: filter_empty_conv)
  show ?case
  proof (cases "r = []")
    case True
    then show ?thesis using Cons r e by simp
  next
    case False
    then show ?thesis using Cons r e by (auto split: sum.splits)
  qed
qed

lemma total_empty: "total ops [] = Inr (float_of_int ops 0)"
  by (simp add: total_def)




text \<open>
  Claim C9, as the code has it. Every record that add introduces has a category from the
  fixed category list and, as amount, the text of a float that was entered and compared
  greater than 0; the record is appended to the collection, which is otherwise unchanged.
  Load does not validate: it introduces whatever rows the file holds.
\<close>

theorem add_expense_invariant:
  assumes "add_expense ops date expenses inputs = Inr (expenses', rest, evs)"
  shows "\<exists>category description amount.
      expenses' = expenses @ [new_expense date category description (fstr ops amount)]
    \<and> category \<in> set CATEGORIES
    \<and> fgt_zero ops amount
    \<and> (\<exists>s \<in> set inputs. float_of_str ops s = Some amount)
    \<and> description \<noteq> []"
proof -
  obtain category inputs1 evs1 where c: "read_category inputs = Inr (category, inputs1, evs1)"
    using assms by (auto simp: add_expense_def split: sum.splits)
  obtain line inputs2 where l: "inputs1 = line # inputs2"
    using assms c by (cases inputs1) (auto simp: add_expense_def)
  let ?d = "if py_strip line = [] then ''No description'' else py_strip line"
  obtain amount inputs3 evs2 where a: "read_amount ops inputs2 = Inr (amount, inputs3, evs2)"
    using assms c l by (auto simp: add_expense_def Let_def split: sum.splits)
  have e: "expenses' = expenses @ [new_expense date category ?d (fstr ops amount)]"
    using assms c l a by (cases inputs3) (auto simp: add_expense_def Let_def)
  have sub: "set inputs2 \<subseteq> set inputs"
    using read_category_rest[OF c] l by auto
  have "category \<in> set CATEGORIES" using c by (rule read_category_member)
  moreover have "fgt_zero ops amount \<and> (\<exists>s \<in> set inputs2. float_of_str ops s = Some amount)"
    using a by (rule read_amount_positive)
  moreover have "?d \<noteq> []" by simp
  ultimately show ?thesis using e sub by blast
qed

theorem add_expense_invariant_witness:
  "add_expense recording_ops ''2024-02-01'' sample_expenses [''3'', ''Cinema'', ''7.25'', '''']
     = Inr (sample_expenses @ [new_expense ''2024-02-01'' ''Entertainment'' ''Cinema'' ''7.25''],
            [], [])
   \<and> ''Entertainment'' \<in> set CATEGORIES
   \<and> fgt_zero recording_ops (FloatOfStr ''7.25'')"
proof -
  have e: "add_expense recording_ops ''2024-02-01'' sample_expenses
             [''3'', ''Cinema'', ''7.25'', '''']
     = Inr (sample_expenses @ [new_expense ''2024-02-01'' ''Entertainment'' ''Cinema'' ''7.25''],
            [], [])"
    by (simp add: add_expense_def py_int_samples(3) recording_literals CATEGORIES_def py_strip_def
        py_isspace_def)
  show ?thesis
    using add_expense_invariant[OF e] e recording_literals(4)
    by (simp add: CATEGORIES_def)
qed

lemma foreign_text_rows:
  "foreign_text = concat (map writerow [fieldnames, [''2024-01-01'', ''Misc'', ''x'', ''-5'']])"
  by (simp add: foreign_text_def writerow_def fieldnames_def join_field_def needs_quote_def
      delimiter_def quotechar_def CR_def LF_def)

theorem load_keeps_unknown_category:
  "load_expenses \<lparr>content = Some foreign_text, readable = True, writable = True\<rparr>
     = ([new_expense ''2024-01-01'' ''Misc'' ''x'' ''-5''], Loaded 1)
   \<and> ''Misc'' \<notin> set CATEGORIES"
proof -
  let ?rs = "[fieldnames, [''2024-01-01'', ''Misc'', ''x'', ''-5'']]"
  have "feed parse_reset [] (concat (map writerow ?rs)) = ([] @ ?rs, None)"
    by (intro feed_rows) (simp add: fieldnames_def field_limit_def)
  then have "read_rows parse_reset [] (splitlines foreign_text) = (?rs, None)"
    by (simp add: read_rows_splitlines foreign_text_rows)
  then show ?thesis
    unfolding load_text by (simp add: dict_reader_def dict_of_row_new_expense CATEGORIES_def)
qed

end
